theory Spec2Isabelle
  imports Main "HOL-Library.Multiset"
begin

section \<open>durationcheck: multiplication of two \<open>time.Duration\<close> values\<close>

text \<open>
  A shallow embedding of \<^verbatim>\<open>durationcheck.go\<close>. The analyser receives an
  \<^verbatim>\<open>analysis.Pass\<close>: the package (with its direct imports), the syntax trees of its
  files and the type checker's tables. It visits every \<^verbatim>\<open>*ast.BinaryExpr\<close> in
  pre-order and reports a multiplication whose operands are both of type
  \<^verbatim>\<open>time.Duration\<close> and both "unacceptable".
\<close>

subsection \<open>Syntax trees (\<^verbatim>\<open>go/ast\<close>)\<close>

text \<open>
  \<open>node_id\<close> stands for the address of a node: the tables of \<^verbatim>\<open>types.Info\<close> are
  keyed by node pointers, not by the shape of the expression. \<open>pos\<close> is
  \<^verbatim>\<open>token.Pos\<close>.
\<close>

type_synonym node_id = nat
type_synonym pos = nat

datatype token = ADD | SUB | MUL | QUO | REM | OtherOp nat

record ident =
  IdentId :: node_id
  NamePos :: pos
  Name :: string

text \<open>
  The node kinds that the analyser tells apart, each with the fields it reads;
  \<open>OtherNode\<close> is every other kind of node (unary and index expressions, statements,
  declarations, files ...) with its children in the order \<^verbatim>\<open>ast.Inspect\<close> walks them.
\<close>

datatype expr =
    BasicLit node_id pos string
  | Ident ident
  | ParenExpr node_id pos expr
  | SelectorExpr node_id expr ident
  | BinaryExpr node_id expr token expr
  | CallExpr node_id expr "expr list"
  | OtherNode node_id pos "expr list"

fun nodeId :: "expr \<Rightarrow> node_id" where
  "nodeId (BasicLit i p v) = i"
| "nodeId (Ident x) = IdentId x"
| "nodeId (ParenExpr i p x) = i"
| "nodeId (SelectorExpr i x sel) = i"
| "nodeId (BinaryExpr i x op y) = i"
| "nodeId (CallExpr i f args) = i"
| "nodeId (OtherNode i p cs) = i"

text \<open>\<^verbatim>\<open>Pos()\<close> of \<^verbatim>\<open>go/ast\<close>: the position of the first character of the node.\<close>

fun exprPos :: "expr \<Rightarrow> pos" where
  "exprPos (BasicLit i p v) = p"
| "exprPos (Ident x) = NamePos x"
| "exprPos (ParenExpr i p x) = p"
| "exprPos (SelectorExpr i x sel) = exprPos x"
| "exprPos (BinaryExpr i x op y) = exprPos x"
| "exprPos (CallExpr i f args) = exprPos f"
| "exprPos (OtherNode i p cs) = p"

fun children :: "expr \<Rightarrow> expr list" where
  "children (BasicLit i p v) = []"
| "children (Ident x) = []"
| "children (ParenExpr i p x) = [x]"
| "children (SelectorExpr i x sel) = [x, Ident sel]"
| "children (BinaryExpr i x op y) = [x, y]"
| "children (CallExpr i f args) = f # args"
| "children (OtherNode i p cs) = cs"

subsection \<open>Types and the type checker's tables (\<^verbatim>\<open>go/types\<close>)\<close>

text \<open>
  \<^verbatim>\<open>types.Type\<close> is an interface with two methods, \<^verbatim>\<open>String()\<close> and
  \<^verbatim>\<open>Underlying()\<close>. \<open>String\<close> is the canonical, package-qualified rendering of the
  type; \<open>Underlying\<close> is the rendering of its underlying type.
\<close>

record gotype =
  String :: string
  Underlying :: string

text \<open>
  \<^verbatim>\<open>types.Info\<close>: \<open>Types\<close> is the map \<^verbatim>\<open>Types\<close> (the field \<^verbatim>\<open>Type\<close> of the
  recorded \<^verbatim>\<open>TypeAndValue\<close>); \<open>Objects\<close> gives, for an identifier, the type of the
  object that \<^verbatim>\<open>Defs\<close> or \<^verbatim>\<open>Uses\<close> records for it.
\<close>

record info =
  Types :: "node_id \<rightharpoonup> gotype"
  Objects :: "node_id \<rightharpoonup> gotype"

text \<open>
  \<^verbatim>\<open>Info.TypeOf\<close>: the type recorded in \<^verbatim>\<open>Types\<close>; failing that, for an identifier,
  the type of its object; failing that, \<^verbatim>\<open>nil\<close>.
\<close>

definition TypeOf :: "info \<Rightarrow> expr \<Rightarrow> gotype option" where
  "TypeOf ti e =
     (case Types ti (nodeId e) of
        Some t \<Rightarrow> Some t
      | None \<Rightarrow> (case e of Ident x \<Rightarrow> Objects ti (IdentId x) | _ \<Rightarrow> None))"

record package =
  Imports :: "string list"

record Diagnostic =
  Pos :: pos
  Message :: string

record Pass =
  Pkg :: package
  Files :: "expr list"
  TypesInfo :: info

text \<open>A run-time panic ends the analysis of the package.\<close>

datatype panic = NilDereference | TypeAssertion

subsection \<open>The analyser\<close>

fun hasImport :: "string list \<Rightarrow> string \<Rightarrow> bool" where
  "hasImport [] importPath = False"
| "hasImport (imp # imps) importPath =
     (if imp = importPath then True else hasImport imps importPath)"

text \<open>
  \<^verbatim>\<open>isDuration\<close> calls \<^verbatim>\<open>x.String()\<close>; on the \<^verbatim>\<open>nil\<close> interface value that call
  panics.
\<close>

fun isDuration :: "gotype option \<Rightarrow> panic + bool" where
  "isDuration None = Inl NilDereference"
| "isDuration (Some x) = Inr (String x = ''time.Duration'')"

text \<open>Go's \<^verbatim>\<open>a && b\<close>: \<open>b\<close> is evaluated only when \<open>a\<close> is true.\<close>

definition andalso :: "panic + bool \<Rightarrow> panic + bool \<Rightarrow> panic + bool" where
  "andalso a b = (case a of Inl p \<Rightarrow> Inl p | Inr False \<Rightarrow> Inr False | Inr True \<Rightarrow> b)"

definition negate :: "panic + bool \<Rightarrow> panic + bool" where
  "negate a = (case a of Inl p \<Rightarrow> Inl p | Inr b \<Rightarrow> Inr (\<not> b))"

fun isAcceptableCastArg :: "Pass \<Rightarrow> expr \<Rightarrow> panic + bool" where
  "isAcceptableCastArg pass (BasicLit i p v) = Inr True"
| "isAcceptableCastArg pass (BinaryExpr i x op y) =
     andalso (isAcceptableCastArg pass x) (isAcceptableCastArg pass y)"
| "isAcceptableCastArg pass n = negate (isDuration (TypeOf (TypesInfo pass) n))"

text \<open>\<^verbatim>\<open>isAcceptableCast\<close> on a call with callee \<open>fn\<close> and arguments \<open>args\<close>.\<close>

definition isAcceptableCast :: "Pass \<Rightarrow> expr \<Rightarrow> expr list \<Rightarrow> panic + bool" where
  "isAcceptableCast pass fn args =
     (if length args \<noteq> 1 then Inr False
      else case isAcceptableCastArg pass (args ! 0) of
        Inl p \<Rightarrow> Inl p
      | Inr False \<Rightarrow> Inr False
      | Inr True \<Rightarrow>
          (case fn of
             SelectorExpr i x sel \<Rightarrow>
               (case x of
                  Ident pkg \<Rightarrow>
                    if Name pkg \<noteq> ''time'' then Inr False
                    else Inr (Name sel = ''Duration'')
                | _ \<Rightarrow> Inr False)
           | _ \<Rightarrow> Inr False))"

fun isUnacceptableExpr :: "Pass \<Rightarrow> expr \<Rightarrow> panic + bool" where
  "isUnacceptableExpr pass (BasicLit i p v) = Inr False"
| "isUnacceptableExpr pass (CallExpr i fn args) = negate (isAcceptableCast pass fn args)"
| "isUnacceptableExpr pass e = Inr True"

text \<open>
  \<^verbatim>\<open>format.Node\<close> is the pretty-printer: \<open>render\<close> gives the text of a node, or
  \<open>None\<close> when printing fails.
\<close>

definition formatNode :: "(expr \<Rightarrow> string option) \<Rightarrow> expr \<Rightarrow> string" where
  "formatNode render node = (case render node of None \<Rightarrow> [] | Some s \<Rightarrow> s)"

text \<open>\<^verbatim>\<open>pass.Reportf\<close> appends a diagnostic to those reported so far.\<close>

definition Reportf :: "pos \<Rightarrow> string \<Rightarrow> Diagnostic list \<Rightarrow> Diagnostic list" where
  "Reportf p msg ds = ds @ [\<lparr>Pos = p, Message = msg\<rparr>]"

definition message :: "string \<Rightarrow> string" where
  "message s = ''Multiplication of durations: `'' @ s @ ''`''"

fun check :: "(expr \<Rightarrow> string option) \<Rightarrow> Pass \<Rightarrow> expr \<Rightarrow> Diagnostic list \<Rightarrow> panic + Diagnostic list" where
  "check render pass (BinaryExpr i x op y) ds =
     (if op \<noteq> MUL then Inr ds
      else case (Types (TypesInfo pass) (nodeId x), Types (TypesInfo pass) (nodeId y)) of
        (Some tx, Some ty) \<Rightarrow>
          (case andalso (isDuration (Some tx)) (isDuration (Some ty)) of
             Inl p \<Rightarrow> Inl p
           | Inr False \<Rightarrow> Inr ds
           | Inr True \<Rightarrow>
               (case andalso (isUnacceptableExpr pass x) (isUnacceptableExpr pass y) of
                  Inl p \<Rightarrow> Inl p
                | Inr False \<Rightarrow> Inr ds
                | Inr True \<Rightarrow>
                    Inr (Reportf (exprPos (BinaryExpr i x op y))
                          (message (formatNode render (BinaryExpr i x op y))) ds)))
      | _ \<Rightarrow> Inr ds)"
| "check render pass node ds = Inl TypeAssertion"

subsection \<open>The traversal (\<^verbatim>\<open>inspector.Preorder\<close>) and \<^verbatim>\<open>run\<close>\<close>

definition isBinaryExpr :: "expr \<Rightarrow> bool" where
  "isBinaryExpr n = (case n of BinaryExpr i x op y \<Rightarrow> True | _ \<Rightarrow> False)"

text \<open>
  \<^verbatim>\<open>Preorder(types, f)\<close> calls \<open>f\<close> on a node whose kind is in \<open>types\<close>, before it
  visits the children of the node, from left to right. \<open>f\<close> works on the diagnostics
  reported so far; a panic in \<open>f\<close> ends the traversal.
\<close>

function Preorder ::
  "(expr \<Rightarrow> bool) \<Rightarrow> (expr \<Rightarrow> 's \<Rightarrow> panic + 's) \<Rightarrow> expr \<Rightarrow> 's \<Rightarrow> panic + 's" where
  "Preorder tys f n s =
     (case (if tys n then f n s else Inr s) of
        Inl p \<Rightarrow> Inl p
      | Inr s' \<Rightarrow>
          fold (\<lambda>c r. case r of Inl p \<Rightarrow> Inl p | Inr t \<Rightarrow> Preorder tys f c t)
            (children n) (Inr s'))"
  by pat_completeness auto
termination
proof (relation "measure (\<lambda>(tys, f, n, s). size n)", goal_cases)
  case 1
  show ?case by simp
next
  case (2 tys f n s s' c)
  have mem: "c \<in> set cs \<Longrightarrow> size c < Suc (size_list size cs)" for cs
    by (induction cs) auto
  from 2 show ?case
    by (cases n) (auto dest: mem)
qed

declare Preorder.simps [simp del]

text \<open>The traversal of all files of the package, without the test on the imports.\<close>

definition scan :: "(expr \<Rightarrow> string option) \<Rightarrow> Pass \<Rightarrow> panic + Diagnostic list" where
  "scan render pass =
     fold (\<lambda>c r. case r of Inl p \<Rightarrow> Inl p
                 | Inr t \<Rightarrow> Preorder isBinaryExpr (check render pass) c t)
       (Files pass) (Inr [])"

definition run :: "(expr \<Rightarrow> string option) \<Rightarrow> Pass \<Rightarrow> panic + Diagnostic list" where
  "run render pass =
     (if \<not> hasImport (Imports (Pkg pass)) ''time'' then Inr []
      else scan render pass)"

subsection \<open>Notions used to state the properties\<close>

text \<open>All nodes of a tree, a node before its children, the children from left to right.\<close>

fun nodes :: "expr \<Rightarrow> expr list" where
  "nodes (BasicLit i p v) = [BasicLit i p v]"
| "nodes (Ident x) = [Ident x]"
| "nodes (ParenExpr i p x) = ParenExpr i p x # nodes x"
| "nodes (SelectorExpr i x sel) = SelectorExpr i x sel # nodes x @ [Ident sel]"
| "nodes (BinaryExpr i x op y) = BinaryExpr i x op y # nodes x @ nodes y"
| "nodes (CallExpr i fn args) = CallExpr i fn args # nodes fn @ concat (map nodes args)"
| "nodes (OtherNode i p cs) = OtherNode i p cs # concat (map nodes cs)"

text \<open>Running \<open>g\<close> on each node of a list in turn, until a panic.\<close>

definition forEach :: "(expr \<Rightarrow> 's \<Rightarrow> panic + 's) \<Rightarrow> expr list \<Rightarrow> panic + 's \<Rightarrow> panic + 's" where
  "forEach g cs r = fold (\<lambda>c r. case r of Inl p \<Rightarrow> Inl p | Inr t \<Rightarrow> g c t) cs r"

definition fileNodes :: "Pass \<Rightarrow> expr list" where
  "fileNodes pass = concat (map nodes (Files pass))"

text \<open>The diagnostic that \<^verbatim>\<open>check\<close> reports for the node \<open>n\<close>.\<close>

definition diagnosticOf :: "(expr \<Rightarrow> string option) \<Rightarrow> expr \<Rightarrow> Diagnostic" where
  "diagnosticOf render n =
     \<lparr>Pos = exprPos n, Message = message (formatNode render n)\<rparr>"

text \<open>
  The call target is the qualified reference \<^verbatim>\<open>time.Duration\<close>: a selector whose
  qualifier is the identifier \<^verbatim>\<open>time\<close> and whose member is \<^verbatim>\<open>Duration\<close>.
\<close>

definition isTimeDuration :: "expr \<Rightarrow> bool" where
  "isTimeDuration fn =
     (case fn of
        SelectorExpr i (Ident pkg) sel \<Rightarrow> Name pkg = ''time'' \<and> Name sel = ''Duration''
      | _ \<Rightarrow> False)"

text \<open>
  The cast-argument classification as the specification words it: a literal is safe, a
  binary operation is safe iff both operands are, any other expression is safe iff its
  resolved type is not the Duration type. The resolved type is what \<open>TypeOf\<close> gives;
  an expression without one is not counted as safe.
\<close>

fun castArgSafe :: "info \<Rightarrow> expr \<Rightarrow> bool" where
  "castArgSafe ti (BasicLit i p v) = True"
| "castArgSafe ti (BinaryExpr i x op y) = (castArgSafe ti x \<and> castArgSafe ti y)"
| "castArgSafe ti n =
     (case TypeOf ti n of None \<Rightarrow> False | Some t \<Rightarrow> String t \<noteq> ''time.Duration'')"

text \<open>
  The leaves that the cast-argument classification of \<open>n\<close> may ask the type of: the
  nodes below \<open>n\<close> reached through binary operations only, literals left out.
  \<open>castArgTyped\<close>: each of them has a resolved type.
\<close>

fun castArgTyped :: "info \<Rightarrow> expr \<Rightarrow> bool" where
  "castArgTyped ti (BasicLit i p v) = True"
| "castArgTyped ti (BinaryExpr i x op y) = (castArgTyped ti x \<and> castArgTyped ti y)"
| "castArgTyped ti n = (TypeOf ti n \<noteq> None)"


text \<open>
  The operand classification as the specification words it. A legitimate conversion is
  a call with exactly one argument, that argument safe, and the call target
  \<^verbatim>\<open>time.Duration\<close>; an unacceptable operand is one that is neither a literal nor a
  legitimate conversion.
\<close>

definition legitimateConversion :: "info \<Rightarrow> expr \<Rightarrow> expr list \<Rightarrow> bool" where
  "legitimateConversion ti fn args =
     (case args of [a] \<Rightarrow> castArgSafe ti a \<and> isTimeDuration fn | _ \<Rightarrow> False)"

fun unacceptableOperand :: "info \<Rightarrow> expr \<Rightarrow> bool" where
  "unacceptableOperand ti (BasicLit i p v) = False"
| "unacceptableOperand ti (CallExpr i fn args) = (\<not> legitimateConversion ti fn args)"
| "unacceptableOperand ti e = True"

text \<open>
  A multiplication of two durations, as opposed to one of a duration and a scalar: a
  binary multiplication whose operands both have the Duration type bound and are both
  unacceptable operands.
\<close>

definition hasDurationType :: "info \<Rightarrow> expr \<Rightarrow> bool" where
  "hasDurationType ti e =
     (case Types ti (nodeId e) of None \<Rightarrow> False | Some t \<Rightarrow> String t = ''time.Duration'')"

definition isMultiplication :: "expr \<Rightarrow> bool" where
  "isMultiplication n = (case n of BinaryExpr i x op y \<Rightarrow> op = MUL | _ \<Rightarrow> False)"

definition durationMultiplication :: "info \<Rightarrow> expr \<Rightarrow> bool" where
  "durationMultiplication ti n =
     (case n of
        BinaryExpr i x op y \<Rightarrow>
          op = MUL \<and> hasDurationType ti x \<and> hasDurationType ti y
          \<and> unacceptableOperand ti x \<and> unacceptableOperand ti y
      | _ \<Rightarrow> False)"

text \<open>
  Whether \<open>check\<close> reports the node: the outcome of \<open>check\<close> with the message left
  aside.
\<close>

definition reports :: "Pass \<Rightarrow> expr \<Rightarrow> panic + bool" where
  "reports pass n =
     (case check (\<lambda>_. None) pass n [] of Inl p \<Rightarrow> Inl p | Inr ds \<Rightarrow> Inr (ds \<noteq> []))"


subsection \<open>Example packages\<close>

definition durationT :: gotype where
  "durationT = \<lparr>String = ''time.Duration'', Underlying = ''int64''\<rparr>"

definition int64T :: gotype where
  "int64T = \<lparr>String = ''int64'', Underlying = ''int64''\<rparr>"


definition mkIdent :: "node_id \<Rightarrow> pos \<Rightarrow> string \<Rightarrow> expr" where
  "mkIdent i p n = Ident \<lparr>IdentId = i, NamePos = p, Name = n\<rparr>"

definition mkPass :: "string list \<Rightarrow> expr \<Rightarrow> (node_id \<times> gotype) list \<Rightarrow> Pass" where
  "mkPass imps e tys =
     \<lparr>Pkg = \<lparr>Imports = imps\<rparr>, Files = [OtherNode 0 0 [e]],
      TypesInfo = \<lparr>Types = map_of tys, Objects = Map.empty\<rparr>\<rparr>"

text \<open>\<^verbatim>\<open>a * b\<close>, both variables of type \<^verbatim>\<open>time.Duration\<close>.\<close>

definition exprAB :: expr where
  "exprAB = BinaryExpr 3 (mkIdent 1 10 ''a'') MUL (mkIdent 2 14 ''b'')"

definition passAB :: Pass where
  "passAB = mkPass [''fmt'', ''time''] exprAB [(1, durationT), (2, durationT), (3, durationT)]"





text \<open>
  \<^verbatim>\<open>time.Duration(x) * d\<close> with \<^verbatim>\<open>d\<close> and the call of type \<^verbatim>\<open>time.Duration\<close> and
  nothing recorded for \<^verbatim>\<open>x\<close>.
\<close>

definition castX :: expr where
  "castX = CallExpr 4
     (SelectorExpr 3 (mkIdent 1 10 ''time'') \<lparr>IdentId = 2, NamePos = 15, Name = ''Duration''\<rparr>)
     [mkIdent 5 24 ''x'']"

definition exprCastXD :: expr where
  "exprCastXD = BinaryExpr 7 castX MUL (mkIdent 6 29 ''d'')"

definition passCastXD :: Pass where
  "passCastXD = mkPass [''time''] exprCastXD
     [(3, durationT), (4, durationT), (6, durationT), (7, durationT)]"

text \<open>
  \<^verbatim>\<open>b.D * b.D\<close> in a package that imports only \<^verbatim>\<open>example.com/b\<close>, where
  \<^verbatim>\<open>b\<close> declares \<^verbatim>\<open>var D time.Duration\<close>.
\<close>

definition selBD :: "node_id \<Rightarrow> pos \<Rightarrow> expr" where
  "selBD i p = SelectorExpr (i + 2) (mkIdent i p ''b'')
     \<lparr>IdentId = i + 1, NamePos = p + 2, Name = ''D''\<rparr>"

definition exprBD :: expr where
  "exprBD = BinaryExpr 7 (selBD 1 10) MUL (selBD 4 16)"

definition passBD :: Pass where
  "passBD = mkPass [''example.com/b''] exprBD
     [(2, durationT), (3, durationT), (5, durationT), (6, durationT), (7, durationT)]"

text \<open>\<^verbatim>\<open>(a * b) * c\<close>, the three variables of type \<^verbatim>\<open>time.Duration\<close>.\<close>

definition exprABC :: expr where
  "exprABC = BinaryExpr 6 (ParenExpr 4 9 exprAB) MUL (mkIdent 5 19 ''c'')"

definition passABC :: Pass where
  "passABC = mkPass [''time''] exprABC
     [(1, durationT), (2, durationT), (3, durationT), (4, durationT), (5, durationT),
      (6, durationT)]"

text \<open>
  \<^verbatim>\<open>d * time.Duration(10 * n)\<close> with \<^verbatim>\<open>d\<close> of type \<^verbatim>\<open>time.Duration\<close> and \<^verbatim>\<open>n\<close>
  of type \<^verbatim>\<open>int64\<close>.
\<close>

definition argTenN :: expr where
  "argTenN = BinaryExpr 7 (BasicLit 5 24 ''10'') MUL (mkIdent 6 29 ''n'')"

definition selTimeDuration :: expr where
  "selTimeDuration =
     SelectorExpr 4 (mkIdent 2 10 ''time'') \<lparr>IdentId = 3, NamePos = 15, Name = ''Duration''\<rparr>"

definition castTenN :: expr where
  "castTenN = CallExpr 8 selTimeDuration [argTenN]"

definition exprDCast :: expr where
  "exprDCast = BinaryExpr 9 (mkIdent 1 6 ''d'') MUL castTenN"

definition passDCast :: Pass where
  "passDCast = mkPass [''time''] exprDCast
     [(1, durationT), (4, durationT), (5, int64T), (6, int64T), (7, int64T), (8, durationT),
      (9, durationT)]"

text \<open>A printer that gives the same text for every node, and one that fails on every node.\<close>

definition renderOk :: "expr \<Rightarrow> string option" where
  "renderOk n = Some ''a * b''"

definition renderFail :: "expr \<Rightarrow> string option" where
  "renderFail n = None"

section \<open>Properties\<close>

subsection \<open>Short-circuit conjunction and negation\<close>

lemma andalso_simps [simp]:
  "andalso (Inl p) b = Inl p"
  "andalso (Inr False) b = Inr False"
  "andalso (Inr True) b = b"
  by (simp_all add: andalso_def)

lemma andalso_Inr [simp]: "andalso (Inr a) (Inr b) = Inr (a \<and> b)"
  by (cases a) simp_all

lemma andalso_True_iff: "andalso a b = Inr True \<longleftrightarrow> a = Inr True \<and> b = Inr True"
  by (auto simp: andalso_def split: sum.splits bool.splits)

lemma negate_simps [simp]:
  "negate (Inl p) = Inl p"
  "negate (Inr b) = Inr (\<not> b)"
  by (simp_all add: negate_def)

lemma negate_eq_iff: "negate a = Inr b \<longleftrightarrow> a = Inr (\<not> b)"
  by (cases a) auto

subsection \<open>The classifiers\<close>

lemma isAcceptableCastArg_typed:
  "castArgTyped (TypesInfo pass) n \<Longrightarrow>
     isAcceptableCastArg pass n = Inr (castArgSafe (TypesInfo pass) n)"
  by (induction pass n rule: isAcceptableCastArg.induct) auto

lemma isAcceptableCastArg_True_iff:
  "isAcceptableCastArg pass n = Inr True \<longleftrightarrow> castArgSafe (TypesInfo pass) n"
  by (induction pass n rule: isAcceptableCastArg.induct)
     (auto simp: andalso_True_iff negate_eq_iff split: option.splits)

text \<open>
  C5: \<open>isAcceptableCastArg\<close> computes the recursive function of the
  specification, \<open>castArgSafe\<close>. A literal is safe; a binary operation is safe iff
  both operands are safe; for every argument, the classifier returns true iff
  \<open>castArgSafe\<close> holds, where an expression of another kind is safe iff its resolved
  type is not the Duration type; and when the leaves it inspects have a resolved type,
  its result is the value of \<open>castArgSafe\<close>.
\<close>

theorem isAcceptableCastArg_computes_castArgSafe:
  "isAcceptableCastArg pass (BasicLit i p v) = Inr True
   \<and> (isAcceptableCastArg pass (BinaryExpr i x op y) = Inr True
        \<longleftrightarrow> isAcceptableCastArg pass x = Inr True \<and> isAcceptableCastArg pass y = Inr True)
   \<and> (isAcceptableCastArg pass n = Inr True \<longleftrightarrow> castArgSafe (TypesInfo pass) n)
   \<and> (castArgTyped (TypesInfo pass) n
        \<longrightarrow> isAcceptableCastArg pass n = Inr (castArgSafe (TypesInfo pass) n))"
  by (simp add: andalso_True_iff isAcceptableCastArg_True_iff isAcceptableCastArg_typed)

theorem isAcceptableCastArg_computes_castArgSafe_witness:
  "castArgTyped (TypesInfo passDCast) argTenN
   \<and> isAcceptableCastArg passDCast argTenN = Inr True
   \<and> castArgSafe (TypesInfo passDCast) argTenN
   \<and> castArgTyped (TypesInfo passAB) exprAB
   \<and> isAcceptableCastArg passAB exprAB = Inr False"
  using isAcceptableCastArg_computes_castArgSafe [where pass = passDCast and n = argTenN]
    isAcceptableCastArg_computes_castArgSafe [where pass = passAB and n = exprAB]
  by (simp add: argTenN_def exprAB_def mkIdent_def passDCast_def passAB_def mkPass_def
      TypeOf_def int64T_def durationT_def)

lemma isAcceptableCast_True_iff:
  "isAcceptableCast pass fn args = Inr True
     \<longleftrightarrow> (\<exists>a. args = [a] \<and> isAcceptableCastArg pass a = Inr True) \<and> isTimeDuration fn"
proof (cases "length args = 1")
  case False
  then show ?thesis by (auto simp: isAcceptableCast_def)
next
  case True
  then obtain a where a: "args = [a]"
    by (cases args) auto
  show ?thesis
    unfolding a
    by (auto simp: isAcceptableCast_def isTimeDuration_def split: sum.splits bool.splits expr.splits)
qed

text \<open>
  C4: a call classifies as a legitimate conversion iff it has exactly one argument, the
  argument passes the cast-argument classification, and the call target is the qualified
  reference \<^verbatim>\<open>time.Duration\<close>. With another number of arguments, with an argument
  that the classification rejects, or with another call target (the argument being
  classified either way), the call is an unacceptable operand.
\<close>

theorem isAcceptableCast_iff_three_requirements:
  "(isAcceptableCast pass fn args = Inr True
      \<longleftrightarrow> (\<exists>a. args = [a] \<and> isAcceptableCastArg pass a = Inr True) \<and> isTimeDuration fn)
   \<and> (length args \<noteq> 1 \<longrightarrow> isUnacceptableExpr pass (CallExpr i fn args) = Inr True)
   \<and> (isAcceptableCastArg pass a = Inr False
        \<longrightarrow> isUnacceptableExpr pass (CallExpr i fn [a]) = Inr True)
   \<and> ((\<exists>b. isAcceptableCastArg pass a = Inr b) \<and> \<not> isTimeDuration fn
        \<longrightarrow> isUnacceptableExpr pass (CallExpr i fn [a]) = Inr True)"
proof -
  have "isAcceptableCast pass fn [a] = Inr False"
    if "isAcceptableCastArg pass a = Inr b" "\<not> isTimeDuration fn" for b
    using that isAcceptableCast_True_iff [of pass fn "[a]"]
    by (cases b) (auto simp: isAcceptableCast_def split: expr.splits)
  then show ?thesis
    by (auto simp: isAcceptableCast_True_iff) (simp_all add: isAcceptableCast_def)
qed

theorem isAcceptableCast_iff_three_requirements_witness:
  "isTimeDuration selTimeDuration
   \<and> isAcceptableCastArg passDCast argTenN = Inr True
   \<and> isAcceptableCast passDCast selTimeDuration [argTenN] = Inr True
   \<and> isUnacceptableExpr passDCast (CallExpr 8 selTimeDuration []) = Inr True
   \<and> isAcceptableCastArg passAB exprAB = Inr False
   \<and> isUnacceptableExpr passAB (CallExpr 8 selTimeDuration [exprAB]) = Inr True
   \<and> \<not> isTimeDuration (mkIdent 1 6 ''d'')
   \<and> isUnacceptableExpr passDCast (CallExpr 8 (mkIdent 1 6 ''d'') [argTenN]) = Inr True"
  using isAcceptableCast_iff_three_requirements [where pass = passDCast
      and fn = selTimeDuration and args = "[argTenN]" and a = argTenN and i = 8]
    isAcceptableCast_iff_three_requirements [where pass = passDCast
      and fn = selTimeDuration and args = "[]" and a = argTenN and i = 8]
    isAcceptableCast_iff_three_requirements [where pass = passAB
      and fn = selTimeDuration and args = "[exprAB]" and a = exprAB and i = 8]
    isAcceptableCast_iff_three_requirements [where pass = passDCast
      and fn = "mkIdent 1 6 ''d''" and args = "[argTenN]" and a = argTenN and i = 8]
  by (simp add: isTimeDuration_def selTimeDuration_def argTenN_def exprAB_def mkIdent_def
      passDCast_def passAB_def mkPass_def TypeOf_def int64T_def durationT_def
      isAcceptableCast_def)

text \<open>
  C6: the classification of an operand is a closed three-way case split. A literal is
  acceptable; a call is acceptable exactly when \<open>isAcceptableCast\<close> returns true (and
  unacceptable exactly when it returns false); an expression of any other kind is
  unacceptable. So the acceptable operands are the literals and the accepted calls, and
  nothing else.
\<close>

theorem isUnacceptableExpr_three_way:
  "isUnacceptableExpr pass (BasicLit i p v) = Inr False
   \<and> (isUnacceptableExpr pass (CallExpr i fn args) = Inr False
        \<longleftrightarrow> isAcceptableCast pass fn args = Inr True)
   \<and> (isUnacceptableExpr pass (CallExpr i fn args) = Inr True
        \<longleftrightarrow> isAcceptableCast pass fn args = Inr False)
   \<and> isUnacceptableExpr pass (Ident x) = Inr True
   \<and> isUnacceptableExpr pass (ParenExpr i p e) = Inr True
   \<and> isUnacceptableExpr pass (SelectorExpr i e sel) = Inr True
   \<and> isUnacceptableExpr pass (BinaryExpr i e op e') = Inr True
   \<and> isUnacceptableExpr pass (OtherNode i p cs) = Inr True
   \<and> (isUnacceptableExpr pass n = Inr False
        \<longleftrightarrow> (\<exists>i p v. n = BasicLit i p v)
          \<or> (\<exists>i fn args. n = CallExpr i fn args \<and> isAcceptableCast pass fn args = Inr True))"
  by (cases n) (auto simp: negate_eq_iff)

theorem isUnacceptableExpr_three_way_witness:
  "isUnacceptableExpr passDCast (BasicLit 5 24 ''10'') = Inr False
   \<and> isUnacceptableExpr passDCast castTenN = Inr False
   \<and> isUnacceptableExpr passDCast (mkIdent 1 6 ''d'') = Inr True
   \<and> isUnacceptableExpr passDCast argTenN = Inr True"
  using isUnacceptableExpr_three_way [where pass = passDCast and i = 5 and p = 24
      and v = "''10''" and x = "\<lparr>IdentId = 1, NamePos = 6, Name = ''d''\<rparr>"
      and e = "BasicLit 5 24 ''10''" and op = MUL and e' = "mkIdent 6 29 ''n''"
      and n = castTenN]
    isUnacceptableExpr_three_way [where pass = passDCast and i = 7 and n = argTenN
      and e = "BasicLit 5 24 ''10''" and op = MUL and e' = "mkIdent 6 29 ''n''"]
  by (simp add: castTenN_def selTimeDuration_def argTenN_def mkIdent_def isAcceptableCast_def
      passDCast_def mkPass_def TypeOf_def int64T_def)

text \<open>Whenever the code classifies, it classifies as the specification does.\<close>

lemma isAcceptableCast_spec:
  assumes "isAcceptableCast pass fn args = Inr b"
  shows "b = legitimateConversion (TypesInfo pass) fn args"
proof -
  have "legitimateConversion (TypesInfo pass) fn args \<longleftrightarrow> isAcceptableCast pass fn args = Inr True"
    by (auto simp: legitimateConversion_def isAcceptableCast_True_iff
        isAcceptableCastArg_True_iff split: list.splits)
  with assms show ?thesis by auto
qed

lemma isUnacceptableExpr_spec:
  assumes "isUnacceptableExpr pass e = Inr b"
  shows "b = unacceptableOperand (TypesInfo pass) e"
proof (cases e)
  case (CallExpr i fn args)
  with assms have "isAcceptableCast pass fn args = Inr (\<not> b)"
    by (simp add: negate_eq_iff)
  from isAcceptableCast_spec [OF this] CallExpr show ?thesis by auto
qed (use assms in auto)

lemma andalso_isUnacceptableExpr_spec:
  assumes "andalso (isUnacceptableExpr pass x) (isUnacceptableExpr pass y) = Inr b"
  shows "b = (unacceptableOperand (TypesInfo pass) x \<and> unacceptableOperand (TypesInfo pass) y)"
proof (cases "isUnacceptableExpr pass x")
  case (Inl p)
  with assms show ?thesis by simp
next
  case (Inr bx)
  show ?thesis
  proof (cases bx)
    case True
    with assms Inr have "isUnacceptableExpr pass y = Inr b" by simp
    from isUnacceptableExpr_spec [OF this] isUnacceptableExpr_spec [OF Inr] True
    show ?thesis by simp
  next
    case False
    with assms Inr isUnacceptableExpr_spec [OF Inr] show ?thesis by simp
  qed
qed


subsection \<open>The check of one multiplication\<close>

lemma check_MUL:
  assumes "Types (TypesInfo pass) (nodeId x) = Some tx"
    and "Types (TypesInfo pass) (nodeId y) = Some ty"
    and "String tx = ''time.Duration''" and "String ty = ''time.Duration''"
  shows "check render pass (BinaryExpr i x MUL y) ds =
     (case andalso (isUnacceptableExpr pass x) (isUnacceptableExpr pass y) of
        Inl p \<Rightarrow> Inl p
      | Inr False \<Rightarrow> Inr ds
      | Inr True \<Rightarrow> Inr (ds @ [diagnosticOf render (BinaryExpr i x MUL y)]))"
  using assms by (simp add: Reportf_def diagnosticOf_def split: sum.splits bool.splits)

text \<open>
  C1: for a multiplication whose operands both have a type bound in \<open>Types\<close> and both
  types are the Duration type, \<open>check\<close> reports the diagnostic of that expression if and
  only if both operands classify as unacceptable. When an operand classifies as
  acceptable, no diagnostic is added for the expression.
\<close>

theorem check_reports_iff_both_unacceptable:
  assumes "Types (TypesInfo pass) (nodeId x) = Some tx"
    and "Types (TypesInfo pass) (nodeId y) = Some ty"
    and "isDuration (Some tx) = Inr True" and "isDuration (Some ty) = Inr True"
  shows "(check render pass (BinaryExpr i x MUL y) ds
            = Inr (ds @ [diagnosticOf render (BinaryExpr i x MUL y)])
          \<longleftrightarrow> isUnacceptableExpr pass x = Inr True \<and> isUnacceptableExpr pass y = Inr True)
       \<and> (isUnacceptableExpr pass x = Inr False
            \<longrightarrow> check render pass (BinaryExpr i x MUL y) ds = Inr ds)
       \<and> (isUnacceptableExpr pass x = Inr True \<and> isUnacceptableExpr pass y = Inr False
            \<longrightarrow> check render pass (BinaryExpr i x MUL y) ds = Inr ds)
       \<and> (isUnacceptableExpr pass x = Inr False \<or> isUnacceptableExpr pass y = Inr False
            \<longrightarrow> (\<forall>d. check render pass (BinaryExpr i x MUL y) ds \<noteq> Inr (ds @ [d])))"
proof -
  have c: "check render pass (BinaryExpr i x MUL y) ds =
     (case andalso (isUnacceptableExpr pass x) (isUnacceptableExpr pass y) of
        Inl p \<Rightarrow> Inl p
      | Inr False \<Rightarrow> Inr ds
      | Inr True \<Rightarrow> Inr (ds @ [diagnosticOf render (BinaryExpr i x MUL y)]))"
    using assms(3,4) by (intro check_MUL [OF assms(1,2)]) auto
  show ?thesis
    unfolding c
    by (auto simp: andalso_def split: sum.splits bool.splits)
qed

theorem check_reports_iff_both_unacceptable_witness:
  "Types (TypesInfo passAB) (nodeId (mkIdent 1 10 ''a'')) = Some durationT
   \<and> Types (TypesInfo passAB) (nodeId (mkIdent 2 14 ''b'')) = Some durationT
   \<and> isDuration (Some durationT) = Inr True
   \<and> isUnacceptableExpr passAB (mkIdent 1 10 ''a'') = Inr True
   \<and> isUnacceptableExpr passAB (mkIdent 2 14 ''b'') = Inr True
   \<and> check renderOk passAB exprAB [] = Inr [diagnosticOf renderOk exprAB]"
proof -
  have tx: "Types (TypesInfo passAB) (nodeId (mkIdent 1 10 ''a'')) = Some durationT"
    by (simp add: passAB_def mkPass_def mkIdent_def)
  have ty: "Types (TypesInfo passAB) (nodeId (mkIdent 2 14 ''b'')) = Some durationT"
    by (simp add: passAB_def mkPass_def mkIdent_def)
  have d: "isDuration (Some durationT) = Inr True"
    by (simp add: durationT_def)
  show ?thesis
    using tx ty d check_reports_iff_both_unacceptable [OF tx ty d d, of renderOk 3 "[]"]
    by (simp add: exprAB_def mkIdent_def)
qed

lemma check_cases:
  assumes "check render pass n ds = Inr r"
  shows "r = (if durationMultiplication (TypesInfo pass) n then ds @ [diagnosticOf render n]
              else ds)"
proof (cases n)
  case (BinaryExpr i x op y)
  show ?thesis
  proof (cases "op = MUL \<and> hasDurationType (TypesInfo pass) x \<and> hasDurationType (TypesInfo pass) y")
    case False
    with assms show ?thesis
      unfolding BinaryExpr
      by (auto simp: durationMultiplication_def hasDurationType_def
          split: option.splits bool.splits if_splits)
  next
    case True
    then obtain tx ty where t: "Types (TypesInfo pass) (nodeId x) = Some tx"
        "Types (TypesInfo pass) (nodeId y) = Some ty"
        "String tx = ''time.Duration''" "String ty = ''time.Duration''"
      by (auto simp: hasDurationType_def split: option.splits)
    from True have op: "op = MUL" by simp
    obtain b where b: "andalso (isUnacceptableExpr pass x) (isUnacceptableExpr pass y) = Inr b"
      using assms unfolding BinaryExpr op check_MUL [OF t]
      by (cases "andalso (isUnacceptableExpr pass x) (isUnacceptableExpr pass y)") auto
    from andalso_isUnacceptableExpr_spec [OF b] True
    have "b = durationMultiplication (TypesInfo pass) n"
      by (simp add: BinaryExpr durationMultiplication_def)
    with assms b show ?thesis
      unfolding BinaryExpr op check_MUL [OF t] by (cases b) auto
  qed
qed (use assms in simp_all)

lemma check_reports:
  "check render pass n ds =
     (case reports pass n of
        Inl p \<Rightarrow> Inl p
      | Inr True \<Rightarrow> Inr (ds @ [diagnosticOf render n])
      | Inr False \<Rightarrow> Inr ds)"
proof (cases n)
  case (BinaryExpr i x op y)
  show ?thesis
    unfolding BinaryExpr
    by (simp add: reports_def Reportf_def diagnosticOf_def
        split: option.splits sum.splits bool.splits)
qed (simp_all add: reports_def)

lemma check_report_render:
  assumes "check r1 pass n ds = Inr (ds @ [diagnosticOf r1 n])"
  shows "check r2 pass n ds' = Inr (ds' @ [diagnosticOf r2 n])"
  using assms
  by (simp add: check_reports [of _ pass n] split: sum.splits bool.splits)

lemma check_render_rel:
  assumes "map Pos a = map Pos b"
  shows "rel_sum (=) (\<lambda>a b. map Pos a = map Pos b) (check r1 pass n a) (check r2 pass n b)"
  using assms
  by (simp add: check_reports [of _ pass n] diagnosticOf_def split: sum.splits bool.splits)


subsection \<open>Types enter through their names only\<close>






subsection \<open>The traversal as a loop over the nodes\<close>

lemma forEach_simps [simp]:
  "forEach g [] r = r"
  "forEach g (c # cs) (Inr t) = forEach g cs (g c t)"
  "forEach g cs (Inl p) = Inl p"
proof -
  show "forEach g cs (Inl p) = Inl p"
    by (induction cs) (simp_all add: forEach_def)
qed (simp_all add: forEach_def)

lemma forEach_append: "forEach g (xs @ ys) r = forEach g ys (forEach g xs r)"
  by (simp add: forEach_def)

lemma nodes_children: "nodes n = n # concat (map nodes (children n))"
  by (cases n) simp_all






lemma fold_Preorder:
  assumes "\<And>c t. c \<in> set cs \<Longrightarrow> Preorder tys f c t = forEach f (filter tys (nodes c)) (Inr t)"
  shows "fold (\<lambda>c r. case r of Inl p \<Rightarrow> Inl p | Inr t \<Rightarrow> Preorder tys f c t) cs r
         = forEach f (filter tys (concat (map nodes cs))) r"
  using assms
proof (induction cs arbitrary: r)
  case Nil
  then show ?case by simp
next
  case (Cons c cs)
  show ?case
  proof (cases r)
    case (Inl p)
    have "fold (\<lambda>c r. case r of Inl p \<Rightarrow> Inl p | Inr t \<Rightarrow> Preorder tys f c t) cs (Inl p) = Inl p"
      by (induction cs) simp_all
    with Inl show ?thesis by simp
  next
    case (Inr t)
    with Cons show ?thesis
      by (simp add: forEach_append)
  qed
qed

lemma Preorder_nodes: "Preorder tys f n s = forEach f (filter tys (nodes n)) (Inr s)"
proof (induction tys f n s rule: Preorder.induct)
  case (1 tys f n s)
  show ?case
  proof (cases "if tys n then f n s else Inr s")
    case (Inl p)
    then show ?thesis
      by (subst Preorder.simps, subst nodes_children) (auto split: if_splits)
  next
    case (Inr s')
    have "fold (\<lambda>c r. case r of Inl p \<Rightarrow> Inl p | Inr t \<Rightarrow> Preorder tys f c t) (children n) (Inr s')
           = forEach f (filter tys (concat (map nodes (children n)))) (Inr s')"
      by (rule fold_Preorder) (rule "1.IH" [OF Inr])
    with Inr show ?thesis
      by (subst Preorder.simps, subst nodes_children) (auto split: if_splits)
  qed
qed

lemma scan_nodes:
  "scan render pass = forEach (check render pass) (filter isBinaryExpr (fileNodes pass)) (Inr [])"
  unfolding scan_def fileNodes_def
  by (rule fold_Preorder) (rule Preorder_nodes)


lemma forEach_check_Inr:
  "forEach (check render pass) ns (Inr ds0) = Inr ds \<Longrightarrow>
     ds = ds0 @ map (diagnosticOf render) (filter (durationMultiplication (TypesInfo pass)) ns)"
proof (induction ns arbitrary: ds0)
  case Nil
  then show ?case by simp
next
  case (Cons n ns)
  show ?case
  proof (cases "check render pass n ds0")
    case (Inl p)
    with Cons.prems show ?thesis by simp
  next
    case (Inr r)
    from Cons.prems Inr have "forEach (check render pass) ns (Inr r) = Inr ds" by simp
    from Cons.IH [OF this] check_cases [OF Inr] show ?thesis by simp
  qed
qed


lemma forEach_check_render_rel:
  assumes "rel_sum (=) (\<lambda>a b. map Pos a = map Pos b) ra rb"
  shows "rel_sum (=) (\<lambda>a b. map Pos a = map Pos b)
           (forEach (check r1 pass) ns ra) (forEach (check r2 pass) ns rb)"
  using assms
proof (induction ns arbitrary: ra rb)
  case Nil
  then show ?case by simp
next
  case (Cons n ns)
  show ?case
  proof (cases ra)
    case (Inl p)
    with Cons.prems show ?thesis by (cases rb) simp_all
  next
    case (Inr a)
    with Cons.prems obtain b where b: "rb = Inr b" "map Pos a = map Pos b"
      by (cases rb) simp_all
    from Cons.IH [OF check_render_rel [OF b(2)]] Inr b show ?thesis by simp
  qed
qed

lemma durationMultiplication_binary: "durationMultiplication ti n \<Longrightarrow> isBinaryExpr n"
  by (cases n) (simp_all add: durationMultiplication_def isBinaryExpr_def)

lemma durationMultiplication_mult: "durationMultiplication ti n \<Longrightarrow> isMultiplication n"
  by (cases n) (simp_all add: durationMultiplication_def isMultiplication_def)

lemma durationMultiplication_conj [simp]:
  "(isBinaryExpr n \<and> durationMultiplication ti n) = durationMultiplication ti n"
  "(isMultiplication n \<and> durationMultiplication ti n) = durationMultiplication ti n"
  by (auto dest: durationMultiplication_binary durationMultiplication_mult)


subsection \<open>The run on a package\<close>



text \<open>
  C2: the package imports \<^verbatim>\<open>time\<close> and contains \<^verbatim>\<open>time.Duration(x) * d\<close>; both
  operands have the type \<^verbatim>\<open>time.Duration\<close> bound, nothing is recorded for \<^verbatim>\<open>x\<close>.
  \<open>TypeOf\<close> gives \<^verbatim>\<open>nil\<close> for \<^verbatim>\<open>x\<close>, \<open>isDuration\<close> calls \<^verbatim>\<open>String()\<close> on it, and
  the run ends in a panic instead of skipping the node.
\<close>

theorem run_panics_on_untyped_cast_argument:
  "hasImport (Imports (Pkg passCastXD)) ''time''
   \<and> TypeOf (TypesInfo passCastXD) (mkIdent 5 24 ''x'') = None
   \<and> isAcceptableCastArg passCastXD (mkIdent 5 24 ''x'') = Inl NilDereference
   \<and> run renderOk passCastXD = Inl NilDereference"
  by (simp add: run_def scan_nodes fileNodes_def passCastXD_def mkPass_def exprCastXD_def
      castX_def mkIdent_def isBinaryExpr_def TypeOf_def durationT_def isAcceptableCast_def)

text \<open>
  C3, the claim as stated fails: a package that imports only \<^verbatim>\<open>example.com/b\<close> and
  multiplies \<^verbatim>\<open>b.D * b.D\<close>, both of type \<^verbatim>\<open>time.Duration\<close>. The traversal reports the
  multiplication, the run with the test on the imports reports nothing.
\<close>

theorem import_gate_counterexample:
  "\<not> hasImport (Imports (Pkg passBD)) ''time''
   \<and> run renderOk passBD = Inr []
   \<and> scan renderOk passBD = Inr [diagnosticOf renderOk exprBD]"
  by (simp add: run_def scan_nodes fileNodes_def passBD_def mkPass_def exprBD_def selBD_def
      mkIdent_def isBinaryExpr_def durationT_def Reportf_def diagnosticOf_def)

lemma hasImport_iff: "hasImport imps p \<longleftrightarrow> p \<in> set imps"
  by (induction imps) auto

text \<open>
  C3, amended: when the package imports \<^verbatim>\<open>time\<close>, the run gives what the traversal
  gives; when it does not, the run reports nothing, whatever the traversal would
  report.
\<close>

theorem run_gated_scan:
  "(''time'' \<in> set (Imports (Pkg pass)) \<longrightarrow> run render pass = scan render pass)
   \<and> (''time'' \<notin> set (Imports (Pkg pass)) \<longrightarrow> run render pass = Inr [])"
  by (simp add: run_def hasImport_iff)

theorem run_gated_scan_witness:
  "''time'' \<in> set (Imports (Pkg passAB))
   \<and> run renderOk passAB = scan renderOk passAB
   \<and> scan renderOk passAB = Inr [diagnosticOf renderOk exprAB]
   \<and> ''time'' \<notin> set (Imports (Pkg passBD))
   \<and> run renderOk passBD = Inr []"
  using run_gated_scan [of passAB renderOk] run_gated_scan [of passBD renderOk]
  by (simp add: scan_nodes fileNodes_def passAB_def passBD_def mkPass_def exprAB_def
      mkIdent_def isBinaryExpr_def durationT_def Reportf_def diagnosticOf_def)



text \<open>
  C8: every diagnostic of the traversal is that of a multiplication node of the tree:
  its position is the position of that node and its message is
  \<^verbatim>\<open>Multiplication of durations: `\<close>, the text of the node, \<^verbatim>\<open>`\<close>. The text is what
  the printer gives, and the empty string when the printer fails; the diagnostic of a
  duration multiplication is then still reported, with nothing between the quotes. The
  printer has no other effect: with any two printers the traversal ends in the same way
  and reports at the same positions.
\<close>

theorem diagnostic_position_and_message:
  "(scan render pass = Inr ds \<longrightarrow>
      (\<forall>d \<in> set ds. \<exists>n \<in> set (fileNodes pass). isMultiplication n
          \<and> Pos d = exprPos n
          \<and> Message d = ''Multiplication of durations: `'' @ formatNode render n @ ''`''))
   \<and> (render n = Some s \<longrightarrow> formatNode render n = s)
   \<and> (render n = None \<longrightarrow> formatNode render n = [])
   \<and> (render n = None \<and> check render' pass n ds0 = Inr (ds0 @ [diagnosticOf render' n]) \<longrightarrow>
        check render pass n ds0
          = Inr (ds0 @ [\<lparr>Pos = exprPos n, Message = ''Multiplication of durations: ``''\<rparr>]))
   \<and> rel_sum (=) (\<lambda>a b. map Pos a = map Pos b) (scan render pass) (scan render' pass)"
proof (intro conjI impI)
  assume "scan render pass = Inr ds"
  then have "forEach (check render pass) (filter isBinaryExpr (fileNodes pass)) (Inr []) = Inr ds"
    by (simp only: scan_nodes)
  from forEach_check_Inr [OF this]
  have "ds = map (diagnosticOf render)
      (filter (durationMultiplication (TypesInfo pass)) (fileNodes pass))"
    by simp
  then show "\<forall>d \<in> set ds. \<exists>n \<in> set (fileNodes pass). isMultiplication n
      \<and> Pos d = exprPos n
      \<and> Message d = ''Multiplication of durations: `'' @ formatNode render n @ ''`''"
    by (auto simp: diagnosticOf_def message_def dest: durationMultiplication_mult)
next
  assume a: "render n = None \<and> check render' pass n ds0 = Inr (ds0 @ [diagnosticOf render' n])"
  then have "check render pass n ds0 = Inr (ds0 @ [diagnosticOf render n])"
    using check_report_render [of render' pass n ds0 render ds0] by simp
  with a show "check render pass n ds0
      = Inr (ds0 @ [\<lparr>Pos = exprPos n, Message = ''Multiplication of durations: ``''\<rparr>])"
    by (simp add: diagnosticOf_def message_def formatNode_def)
next
  show "rel_sum (=) (\<lambda>a b. map Pos a = map Pos b) (scan render pass) (scan render' pass)"
    unfolding scan_nodes by (rule forEach_check_render_rel) simp
qed (simp_all add: formatNode_def)

theorem diagnostic_position_and_message_witness:
  "scan renderFail passAB = Inr [\<lparr>Pos = 10, Message = ''Multiplication of durations: ``''\<rparr>]
   \<and> scan renderOk passAB = Inr [\<lparr>Pos = 10, Message = ''Multiplication of durations: `a * b`''\<rparr>]
   \<and> exprAB \<in> set (fileNodes passAB) \<and> isMultiplication exprAB \<and> exprPos exprAB = 10
   \<and> renderFail exprAB = None \<and> renderOk exprAB = Some ''a * b''
   \<and> check renderOk passAB exprAB [] = Inr [diagnosticOf renderOk exprAB]
   \<and> check renderFail passAB exprAB []
       = Inr [\<lparr>Pos = 10, Message = ''Multiplication of durations: ``''\<rparr>]"
proof -
  have f: "scan renderFail passAB = Inr [\<lparr>Pos = 10, Message = ''Multiplication of durations: ``''\<rparr>]"
    by (simp add: scan_nodes fileNodes_def passAB_def mkPass_def exprAB_def
        mkIdent_def isBinaryExpr_def durationT_def Reportf_def message_def formatNode_def
        renderFail_def)
  have c: "check renderOk passAB exprAB [] = Inr ([] @ [diagnosticOf renderOk exprAB])"
    by (simp add: passAB_def mkPass_def exprAB_def mkIdent_def durationT_def Reportf_def
        diagnosticOf_def)
  have n: "exprAB \<in> set (fileNodes passAB)"
    by (simp add: fileNodes_def passAB_def mkPass_def exprAB_def)
  have r: "renderFail exprAB = None" "renderOk exprAB = Some ''a * b''"
    by (simp_all add: renderFail_def renderOk_def)
  have p: "isMultiplication exprAB" "exprPos exprAB = 10"
    by (simp_all add: exprAB_def mkIdent_def isMultiplication_def)
  have o: "scan renderOk passAB = Inr [\<lparr>Pos = 10, Message = ''Multiplication of durations: `a * b`''\<rparr>]"
    by (simp add: scan_nodes fileNodes_def passAB_def mkPass_def exprAB_def
        mkIdent_def isBinaryExpr_def durationT_def Reportf_def message_def formatNode_def
        renderOk_def)
  from diagnostic_position_and_message [where render = renderFail and pass = passAB
      and n = exprAB and ds0 = "[]" and render' = renderOk and ds = "[]" and s = "[]"] r(1) c
  have "check renderFail passAB exprAB []
      = Inr [\<lparr>Pos = 10, Message = ''Multiplication of durations: ``''\<rparr>]"
    by (simp add: p)
  with f c n r p o show ?thesis
    by simp
qed

text \<open>
  C10: in \<^verbatim>\<open>(a * b) * c\<close> (or \<^verbatim>\<open>a * b * c\<close>) with \<^verbatim>\<open>a\<close>, \<^verbatim>\<open>b\<close>, \<^verbatim>\<open>c\<close> plain
  identifiers of type \<^verbatim>\<open>time.Duration\<close>, the left operand of the outer multiplication
  is a binary operation (in parentheses or not) and so falls into the default case of
  \<open>isUnacceptableExpr\<close>: unacceptable. Both multiplications are reported, the outer one
  first.
\<close>

theorem nested_multiplication_reported_twice:
  assumes inner: "inner = BinaryExpr j (Ident a) MUL (Ident b)"
    and left: "l = inner \<or> l = ParenExpr k q inner"
    and outer: "outer = BinaryExpr i l MUL (Ident c)"
    and types: "hasDurationType (TypesInfo pass) (Ident a)"
      "hasDurationType (TypesInfo pass) (Ident b)"
      "hasDurationType (TypesInfo pass) (Ident c)"
      "hasDurationType (TypesInfo pass) l"
  shows "isUnacceptableExpr pass inner = Inr True
     \<and> isUnacceptableExpr pass l = Inr True
     \<and> check render pass inner ds = Inr (ds @ [diagnosticOf render inner])
     \<and> check render pass outer ds = Inr (ds @ [diagnosticOf render outer])
     \<and> Preorder isBinaryExpr (check render pass) outer ds
         = Inr (ds @ [diagnosticOf render outer, diagnosticOf render inner])"
proof -
  have ui: "isUnacceptableExpr pass inner = Inr True"
    by (simp add: inner)
  have ul: "isUnacceptableExpr pass l = Inr True"
    using left by (auto simp: inner)
  from types obtain ta tb tc tl where t:
      "Types (TypesInfo pass) (IdentId a) = Some ta" "String ta = ''time.Duration''"
      "Types (TypesInfo pass) (IdentId b) = Some tb" "String tb = ''time.Duration''"
      "Types (TypesInfo pass) (IdentId c) = Some tc" "String tc = ''time.Duration''"
      "Types (TypesInfo pass) (nodeId l) = Some tl" "String tl = ''time.Duration''"
    by (auto simp: hasDurationType_def split: option.splits)
  have ci: "check render pass inner ds' = Inr (ds' @ [diagnosticOf render inner])" for ds'
    unfolding inner using t by (simp add: Reportf_def diagnosticOf_def)
  have co: "check render pass outer ds' = Inr (ds' @ [diagnosticOf render outer])" for ds'
    unfolding outer using t ul by (simp add: Reportf_def diagnosticOf_def)
  have "filter isBinaryExpr (nodes outer) = [outer, inner]"
    using left by (auto simp: outer inner isBinaryExpr_def)
  then have "Preorder isBinaryExpr (check render pass) outer ds
      = Inr (ds @ [diagnosticOf render outer, diagnosticOf render inner])"
    by (simp add: Preorder_nodes ci co)
  with ui ul ci co show ?thesis by simp
qed

theorem nested_multiplication_reported_twice_witness:
  "exprAB = BinaryExpr 3 (Ident \<lparr>IdentId = 1, NamePos = 10, Name = ''a''\<rparr>) MUL
              (Ident \<lparr>IdentId = 2, NamePos = 14, Name = ''b''\<rparr>)
   \<and> exprABC = BinaryExpr 6 (ParenExpr 4 9 exprAB) MUL
              (Ident \<lparr>IdentId = 5, NamePos = 19, Name = ''c''\<rparr>)
   \<and> hasDurationType (TypesInfo passABC) (Ident \<lparr>IdentId = 1, NamePos = 10, Name = ''a''\<rparr>)
   \<and> hasDurationType (TypesInfo passABC) (Ident \<lparr>IdentId = 2, NamePos = 14, Name = ''b''\<rparr>)
   \<and> hasDurationType (TypesInfo passABC) (Ident \<lparr>IdentId = 5, NamePos = 19, Name = ''c''\<rparr>)
   \<and> hasDurationType (TypesInfo passABC) (ParenExpr 4 9 exprAB)
   \<and> isUnacceptableExpr passABC (ParenExpr 4 9 exprAB) = Inr True
   \<and> Preorder isBinaryExpr (check renderFail passABC) exprABC []
       = Inr [\<lparr>Pos = 9, Message = ''Multiplication of durations: ``''\<rparr>,
              \<lparr>Pos = 10, Message = ''Multiplication of durations: ``''\<rparr>]
   \<and> run renderFail passABC
       = Inr [\<lparr>Pos = 9, Message = ''Multiplication of durations: ``''\<rparr>,
              \<lparr>Pos = 10, Message = ''Multiplication of durations: ``''\<rparr>]"
proof -
  have i: "exprAB = BinaryExpr 3 (Ident \<lparr>IdentId = 1, NamePos = 10, Name = ''a''\<rparr>) MUL
              (Ident \<lparr>IdentId = 2, NamePos = 14, Name = ''b''\<rparr>)"
    by (simp add: exprAB_def mkIdent_def)
  have l: "ParenExpr 4 9 exprAB = exprAB \<or> ParenExpr 4 9 exprAB = ParenExpr 4 9 exprAB"
    by simp
  have o: "exprABC = BinaryExpr 6 (ParenExpr 4 9 exprAB) MUL
              (Ident \<lparr>IdentId = 5, NamePos = 19, Name = ''c''\<rparr>)"
    by (simp add: exprABC_def mkIdent_def)
  have t: "hasDurationType (TypesInfo passABC) (Ident \<lparr>IdentId = 1, NamePos = 10, Name = ''a''\<rparr>)"
    "hasDurationType (TypesInfo passABC) (Ident \<lparr>IdentId = 2, NamePos = 14, Name = ''b''\<rparr>)"
    "hasDurationType (TypesInfo passABC) (Ident \<lparr>IdentId = 5, NamePos = 19, Name = ''c''\<rparr>)"
    "hasDurationType (TypesInfo passABC) (ParenExpr 4 9 exprAB)"
    by (simp_all add: hasDurationType_def passABC_def mkPass_def durationT_def)
  have r: "run renderFail passABC = Preorder isBinaryExpr (check renderFail passABC) exprABC []"
    by (simp add: run_def scan_nodes Preorder_nodes fileNodes_def passABC_def mkPass_def
        isBinaryExpr_def)
  have p: "exprPos exprABC = 9" "exprPos exprAB = 10"
    by (simp_all add: exprABC_def exprAB_def mkIdent_def)
  have "Preorder isBinaryExpr (check renderFail passABC) exprABC []
      = Inr [\<lparr>Pos = 9, Message = ''Multiplication of durations: ``''\<rparr>,
             \<lparr>Pos = 10, Message = ''Multiplication of durations: ``''\<rparr>]"
    and "isUnacceptableExpr passABC (ParenExpr 4 9 exprAB) = Inr True"
    using nested_multiplication_reported_twice [OF i l o t, of renderFail "[]"]
    by (simp_all add: diagnosticOf_def message_def formatNode_def renderFail_def p)
  with i o t r show ?thesis
    by simp
qed

end
